theory Spec2Isabelle
  imports Complex_Main
begin

section \<open>JavaScript values\<close>

text \<open>
  The raw flag object, the declared defaults and the arguments of convertors are untyped
  (\<^verbatim>\<open>any\<close> / \<^verbatim>\<open>unknown\<close>) in \<^verbatim>\<open>src/lib/Arguments.ts\<close>. They are modelled by a
  datatype of JavaScript values. Numbers are IEEE doubles in the source; the code never
  computes with them (it only tests them for truthiness and passes them on), so the
  finite ones are over-approximated by the reals. Objects, arrays, functions and symbols
  are opaque references: the code only tests them against \<^verbatim>\<open>undefined\<close> and
  \<^verbatim>\<open>null\<close> and for truthiness.

  Strings are sequences of code units; the model uses \<^typ>\<open>string\<close>, read as the code
  units \<open>0x00\<close> to \<open>0xFF\<close>.
\<close>

datatype number = NaN | NegZero | PosInfinity | NegInfinity | Fin real

datatype jsval =
    JUndefined
  | JNull
  | JBool bool
  | JNum number
  | JBigInt int
  | JStr string
  | JObj nat

text \<open>\<^verbatim>\<open>ToBoolean\<close>: what \<^verbatim>\<open>!!v\<close> and \<^verbatim>\<open>if (v)\<close> test.\<close>

fun truthy :: "jsval \<Rightarrow> bool" where
  "truthy JUndefined = False"
| "truthy JNull = False"
| "truthy (JBool b) = b"
| "truthy (JNum NaN) = False"
| "truthy (JNum NegZero) = False"
| "truthy (JNum (Fin r)) = (r \<noteq> 0)"
| "truthy (JNum n) = True"
| "truthy (JBigInt i) = (i \<noteq> 0)"
| "truthy (JStr s) = (s \<noteq> [])"
| "truthy (JObj r) = True"

text \<open>The nullish coalescing operator \<^verbatim>\<open>a ?? b\<close>.\<close>

definition nullish :: "jsval \<Rightarrow> bool" where
  "nullish v = (v = JUndefined \<or> v = JNull)"

definition coalesce :: "jsval \<Rightarrow> jsval \<Rightarrow> jsval" where
  "coalesce a b = (if nullish a then b else a)"

section \<open>String primitives of the runtime\<close>

text \<open>
  White space as \<^verbatim>\<open>String.prototype.trim\<close> and the regular expression class
  \<^verbatim>\<open>\s\<close> see it, among the code units up to \<open>0xFF\<close>: TAB, LF, VT, FF, CR, space and
  the no-break space.
\<close>

definition is_space :: "char \<Rightarrow> bool" where
  "is_space c = (c \<in> {CHR 0x09, CHR 0x0A, CHR 0x0B, CHR 0x0C, CHR 0x0D, CHR 0x20, CHR 0xA0})"

definition is_digit :: "char \<Rightarrow> bool" where
  "is_digit c = (c \<in> set ''0123456789'')"

definition trim :: "string \<Rightarrow> string" where
  "trim s = rev (dropWhile is_space (rev (dropWhile is_space s)))"

text \<open>
  One match attempt of \<^verbatim>\<open>/\s+|\s*,\s*/\<close> anchored at the head of the given text; the
  result is the length of the match. The first alternative is tried first and, being
  last in its branch, never backtracks: it succeeds exactly when the text starts with
  white space and takes the whole run. Only when the head is not white space is the
  second alternative tried; its leading \<^verbatim>\<open>\s*\<close> then matches nothing, a comma must
  follow at once, and the trailing \<^verbatim>\<open>\s*\<close> takes the run after it.
\<close>

fun match_separator :: "string \<Rightarrow> nat option" where
  "match_separator [] = None"
| "match_separator (c # cs) =
     (if is_space c then Some (Suc (length (takeWhile is_space cs)))
      else if c = CHR '','' then Some (Suc (length (takeWhile is_space cs)))
      else None)"

text \<open>
  \<^verbatim>\<open>String.prototype.split\<close> with that expression. The accumulator \<open>piece\<close> holds the
  text since the end of the previous match (\<open>S[p..q)\<close> in the language standard); at each
  position a match is tried, a failed attempt moves one code unit on, a match closes
  the piece and resumes after the match. The text after the last match is the last
  piece. On the empty string nothing matches and the result is the one empty piece.
\<close>

function split_loop :: "string \<Rightarrow> string \<Rightarrow> string list" where
  "split_loop piece [] = [piece]"
| "split_loop piece (c # cs) =
     (case match_separator (c # cs) of
        None \<Rightarrow> split_loop (piece @ [c]) cs
      | Some k \<Rightarrow> piece # split_loop [] (drop k (c # cs)))"
  by pat_completeness auto
termination
  by (relation "measure (\<lambda>(piece, s). length s)") (auto split: if_splits)

definition split_names :: "string \<Rightarrow> string list" where
  "split_names s = split_loop [] s"

text \<open>\<^verbatim>\<open>Array.prototype.join\<close>.\<close>

fun join :: "string \<Rightarrow> string list \<Rightarrow> string" where
  "join sep [] = []"
| "join sep [x] = x"
| "join sep (x # y # ys) = x @ sep @ join sep (y # ys)"

text \<open>\<^verbatim>\<open>s.split('\n')\<close>: the pieces between line feeds.\<close>

fun split_lines_from :: "string \<Rightarrow> string \<Rightarrow> string list" where
  "split_lines_from piece [] = [piece]"
| "split_lines_from piece (c # cs) =
     (if c = CHR 0x0A then piece # split_lines_from [] cs
      else split_lines_from (piece @ [c]) cs)"

definition split_lines :: "string \<Rightarrow> string list" where
  "split_lines s = split_lines_from [] s"

section \<open>Errors\<close>

text \<open>
  Modelled from the spec: the classes \<^verbatim>\<open>Exception\<close>, \<^verbatim>\<open>HelpException\<close> and
  \<^verbatim>\<open>ValueException\<close> are imported from files that are not part of the sources at
  hand. Following the specification, the help-requested and the value-error signal are
  the members of one family rooted in \<^verbatim>\<open>Exception\<close>, which is a proper subclass of
  the built-in \<^verbatim>\<open>Error\<close>. Each error carries its message.
\<close>

datatype error =
    Error string
  | Exception string
  | HelpException string
  | ValueException string

text \<open>\<^verbatim>\<open>error instanceof Exception\<close>.\<close>

fun isArgumentException :: "error \<Rightarrow> bool" where
  "isArgumentException (Error m) = False"
| "isArgumentException (Exception m) = True"
| "isArgumentException (HelpException m) = True"
| "isArgumentException (ValueException m) = True"

definition createValueException :: "string \<Rightarrow> error" where
  "createValueException message = ValueException message"

section \<open>Expectations\<close>

text \<open>
  \<^verbatim>\<open>ExpectationType\<close>, the declaration the caller writes. An optional property that is
  left out reads as \<^verbatim>\<open>undefined\<close>: \<open>JUndefined\<close> for the default, \<open>None\<close> for the
  description and the convertor. A convertor may throw, so it returns an error or a
  value.
\<close>

datatype name_decl = NameString string | NameArray "string list"

type_synonym converter = "jsval \<Rightarrow> error + jsval"

record ExpectationType =
  decl_name :: name_decl
  decl_default :: jsval
  decl_description :: "string option"
  decl_convertor :: "converter option"

text \<open>
  An entry of \<^verbatim>\<open>#expectations\<close>. The description is a string or \<^verbatim>\<open>null\<close>
  (\<open>None\<close>); the default is a value, \<open>JNull\<close> standing for "no default".
\<close>

record expectation =
  names :: "string list"
  description :: "string option"
  defaultValue :: jsval
  convertor :: converter

definition normalize_names :: "name_decl \<Rightarrow> string list" where
  "normalize_names n =
     (case n of
        NameString s \<Rightarrow> split_names (trim s)
      | NameArray ms \<Rightarrow> map trim ms)"

definition normalize_description :: "string option \<Rightarrow> string option" where
  "normalize_description des =
     (case des of
        None \<Rightarrow> None
      | Some d \<Rightarrow> if d \<noteq> [] then Some (trim d) else None)"

definition normalize_default :: "jsval \<Rightarrow> jsval" where
  "normalize_default d = coalesce d JNull"

definition normalize_convertor :: "converter option \<Rightarrow> converter" where
  "normalize_convertor c = (case c of None \<Rightarrow> (\<lambda>v. Inr v) | Some f \<Rightarrow> f)"

definition createExpectation :: "ExpectationType \<Rightarrow> expectation" where
  "createExpectation ex =
     \<lparr> names = normalize_names (decl_name ex),
       description = normalize_description (decl_description ex),
       defaultValue = normalize_default (decl_default ex),
       convertor = normalize_convertor (decl_convertor ex) \<rparr>"

definition createExpectations :: "ExpectationType list \<Rightarrow> expectation list" where
  "createExpectations expectation = map createExpectation expectation"

section \<open>The resolution engine\<close>

text \<open>
  The private fields of an \<^verbatim>\<open>Arguments\<close> instance. \<^verbatim>\<open>#raw\<close> is the object the flag
  parser returned; reading a property that is not there gives \<^verbatim>\<open>undefined\<close>, so it is
  a total function into the values. The field \<^verbatim>\<open>#desciprion\<close> keeps the source's
  spelling.
\<close>

record arguments =
  raw :: "string \<Rightarrow> jsval"
  expectations :: "expectation list"
  desciprion :: "string option"
  version :: "string option"

definition new_Arguments :: "(string \<Rightarrow> jsval) \<Rightarrow> ExpectationType list \<Rightarrow> arguments" where
  "new_Arguments parsed decls =
     \<lparr> raw = parsed, expectations = createExpectations decls,
       desciprion = None, version = None \<rparr>"

fun getRaw_loop :: "(string \<Rightarrow> jsval) \<Rightarrow> string list \<Rightarrow> jsval" where
  "getRaw_loop r [] = JUndefined"
| "getRaw_loop r (name # rest) =
     (if r name \<noteq> JUndefined then r name else getRaw_loop r rest)"

definition getRaw :: "arguments \<Rightarrow> string list \<Rightarrow> jsval" where
  "getRaw a ns = getRaw_loop (raw a) ns"

text \<open>
  \<^verbatim>\<open>this.#expectations.find(ex => ex.names.find(n => n === name))\<close>: the inner
  \<^verbatim>\<open>find\<close> returns the alias found (or \<^verbatim>\<open>undefined\<close>), and the outer one tests that
  result for truthiness, which a string passes when it is not empty.
\<close>

definition has_name :: "string \<Rightarrow> expectation \<Rightarrow> bool" where
  "has_name name ex =
     (case find (\<lambda>n. n = name) (names ex) of None \<Rightarrow> False | Some n \<Rightarrow> n \<noteq> [])"

definition find_expectation :: "arguments \<Rightarrow> string \<Rightarrow> expectation option" where
  "find_expectation a name = find (has_name name) (expectations a)"

definition not_found_message :: "string \<Rightarrow> string" where
  "not_found_message name = ''Argument '' @ [CHR 0x22] @ name @ [CHR 0x22] @ '' is not found.''"

definition get :: "arguments \<Rightarrow> string \<Rightarrow> error + jsval" where
  "get a name =
     (case find_expectation a name of
        None \<Rightarrow> Inl (Error (not_found_message name))
      | Some ex \<Rightarrow>
          (let v = getRaw a (names ex)
           in convertor ex (coalesce v (defaultValue ex))))"

definition shouldHelp :: "arguments \<Rightarrow> bool" where
  "shouldHelp a = truthy (getRaw a [''help''])"

definition setDescription :: "string \<Rightarrow> arguments \<Rightarrow> arguments" where
  "setDescription d a = a\<lparr>desciprion := Some d\<rparr>"

text \<open>
  \<^verbatim>\<open>version.replace(/v([0-9]+(\.[0-9]+)*)/g, (_match, p1) => p1)\<close>.
  \<open>dotted_tail\<close> is the length of what \<^verbatim>\<open>(\.[0-9]+)*\<close> takes at the head of a text:
  each round needs a dot and at least one digit and takes the whole run of digits.
  \<open>match_version\<close> is one match attempt of the whole expression at the head of a text;
  its result is the length of the group \<^verbatim>\<open>p1\<close>, the match being one code unit longer.
  Nothing follows the group in the expression, so the greedy choices are never undone.
\<close>

function (sequential) dotted_tail :: "string \<Rightarrow> nat" where
  "dotted_tail (c # d # ds) =
     (if c = CHR ''.'' \<and> is_digit d
      then Suc (length (takeWhile is_digit (d # ds)))
           + dotted_tail (dropWhile is_digit (d # ds))
      else 0)"
| "dotted_tail s = 0"
  by pat_completeness auto
termination
  by (relation "measure length") (auto simp: less_Suc_eq_le le_SucI length_dropWhile_le)

fun match_version :: "string \<Rightarrow> nat option" where
  "match_version [] = None"
| "match_version (c # cs) =
     (if c = CHR ''v'' \<and> takeWhile is_digit cs \<noteq> []
      then Some (length (takeWhile is_digit cs) + dotted_tail (dropWhile is_digit cs))
      else None)"

text \<open>
  The global replacement: matches are looked for from left to right, each match is
  replaced by its group, and the search resumes after the match.
\<close>

function replace_version :: "string \<Rightarrow> string" where
  "replace_version [] = []"
| "replace_version (c # cs) =
     (case match_version (c # cs) of
        None \<Rightarrow> c # replace_version cs
      | Some k \<Rightarrow> take k cs @ replace_version (drop k cs))"
  by pat_completeness auto
termination
  by (relation "measure length") (auto simp: less_Suc_eq_le)

definition setVersion :: "string \<Rightarrow> arguments \<Rightarrow> arguments" where
  "setVersion v a = a\<lparr>version := Some (replace_version v)\<rparr>"

section \<open>Help text\<close>

text \<open>
  The colour helpers \<^verbatim>\<open>bold\<close>, \<^verbatim>\<open>italic\<close>, \<^verbatim>\<open>gray\<close> (from
  \<^verbatim>\<open>./helpers/colors.ts\<close>) and the value inspector \<^verbatim>\<open>Deno.inspect\<close> are outside the
  sources at hand; the help text takes them as parameters.
\<close>

record style =
  bold :: "string \<Rightarrow> string"
  italic :: "string \<Rightarrow> string"
  gray :: "string \<Rightarrow> string"
  inspect :: "jsval \<Rightarrow> string"

definition indent :: string where
  "indent = replicate 8 (CHR '' '')"

definition default_label :: string where
  "default_label = ''V'' @ [CHR 0xFD] @ ''choz'' @ [CHR 0xED] @ '' hodnota:''"

definition header_line :: "style \<Rightarrow> expectation \<Rightarrow> string" where
  "header_line sty ex = ''  '' @ join '', '' (map (\<lambda>n. ''--'' @ bold sty n) (names ex))"

definition description_lines :: "style \<Rightarrow> expectation \<Rightarrow> string list" where
  "description_lines sty ex =
     (case description ex of
        None \<Rightarrow> []
      | Some d \<Rightarrow> if d \<noteq> [] then map (\<lambda>l. indent @ gray sty l) (split_lines d) else [])"

definition default_lines :: "style \<Rightarrow> expectation \<Rightarrow> string list" where
  "default_lines sty ex =
     (if defaultValue ex \<noteq> JNull
      then [indent @ gray sty default_label @ '' '' @ inspect sty (defaultValue ex)]
      else [])"

definition doc_lines :: "style \<Rightarrow> expectation \<Rightarrow> string list" where
  "doc_lines sty ex = [header_line sty ex] @ description_lines sty ex @ default_lines sty ex"

definition doc :: "style \<Rightarrow> expectation \<Rightarrow> string" where
  "doc sty ex = join [CHR 0x0A] ([[]] @ doc_lines sty ex @ [[]])"

definition docs :: "style \<Rightarrow> expectation list \<Rightarrow> string" where
  "docs sty exs = join [CHR 0x0A] (map (doc sty) exs)"

definition session_lines :: "style \<Rightarrow> arguments \<Rightarrow> string list" where
  "session_lines sty a =
     (case desciprion a of None \<Rightarrow> [] | Some d \<Rightarrow> if d \<noteq> [] then [d] else [])
     @ (case version a of
          None \<Rightarrow> []
        | Some v \<Rightarrow> if v \<noteq> [] then [gray sty (italic sty (''Verze: '' @ v))] else [])"

definition getHelpMessage :: "style \<Rightarrow> arguments \<Rightarrow> string" where
  "getHelpMessage sty a =
     join [CHR 0x0A]
       (filter (\<lambda>s. s \<noteq> [])
          [join [CHR 0x0D, CHR 0x0A] (session_lines sty a), docs sty (expectations a)])"

definition triggerHelpException :: "style \<Rightarrow> arguments \<Rightarrow> error + unit" where
  "triggerHelpException sty a = Inl (HelpException (getHelpMessage sty a))"

section \<open>Sequences of calls\<close>

text \<open>
  The public methods of an instance as commands, with the instance they leave behind.
  Only the two setters assign a field; the other methods read the fields, and one that
  throws leaves the instance as it was. \<^verbatim>\<open>keepProcessAlive\<close> registers a listener on
  the global object and touches no field; it is left out.
\<close>

datatype call =
    CallGetRaw "string list"
  | CallGet string
  | CallShouldHelp
  | CallSetDescription string
  | CallSetVersion string
  | CallGetHelpMessage
  | CallTriggerHelpException

fun exec :: "call \<Rightarrow> arguments \<Rightarrow> arguments" where
  "exec (CallSetDescription d) a = setDescription d a"
| "exec (CallSetVersion v) a = setVersion v a"
| "exec c a = a"


definition run :: "call list \<Rightarrow> arguments \<Rightarrow> arguments" where
  "run cs a = fold exec cs a"

section \<open>Properties used in the statements\<close>

text \<open>
  A group of digits, a text in which no \<^verbatim>\<open>v\<close> is directly followed by a digit (so the
  version expression matches nowhere in it), and a text that a dotted run of digits
  cannot extend into (it starts neither with a digit nor with a dot and a digit).
\<close>

definition digit_group :: "string \<Rightarrow> bool" where
  "digit_group g = (g \<noteq> [] \<and> list_all is_digit g)"

fun no_vdigit :: "string \<Rightarrow> bool" where
  "no_vdigit [] = True"
| "no_vdigit [c] = True"
| "no_vdigit (c # d # ds) = (\<not> (c = CHR ''v'' \<and> is_digit d) \<and> no_vdigit (d # ds))"

fun run_stops :: "string \<Rightarrow> bool" where
  "run_stops [] = True"
| "run_stops [c] = (\<not> is_digit c)"
| "run_stops (c # d # ds) = (\<not> is_digit c \<and> \<not> (c = CHR ''.'' \<and> is_digit d))"

text \<open>
  Alias tokens and the separators between them: a token is a non-empty text without
  white space and commas; a separator is a run of white space, or a comma followed by
  any white space. \<open>weave\<close> writes a first token and then separators and tokens in
  turn. A text is trimmed when it neither starts nor ends with white space.
\<close>

definition token_char :: "char \<Rightarrow> bool" where
  "token_char c = (\<not> is_space c \<and> c \<noteq> CHR '','')"

definition is_token :: "string \<Rightarrow> bool" where
  "is_token t = (t \<noteq> [] \<and> list_all token_char t)"

fun is_sep :: "string \<Rightarrow> bool" where
  "is_sep [] = False"
| "is_sep (c # cs) = ((is_space c \<or> c = CHR '','') \<and> list_all is_space cs)"

fun weave :: "string \<Rightarrow> (string \<times> string) list \<Rightarrow> string" where
  "weave t [] = t"
| "weave t ((sp, t') # rest) = t @ sp @ weave t' rest"

definition trimmed :: "string \<Rightarrow> bool" where
  "trimmed s = (s = [] \<or> (\<not> is_space (hd s) \<and> \<not> is_space (last s)))"

section \<open>Example declarations\<close>

definition port_decl :: ExpectationType where
  "port_decl = \<lparr> decl_name = NameString ''port,p'', decl_default = JNum (Fin 3000),
                 decl_description = None, decl_convertor = None \<rparr>"

definition raw_empty :: "string \<Rightarrow> jsval" where
  "raw_empty = (\<lambda>k. JUndefined)"

definition flag_decl :: ExpectationType where
  "flag_decl = \<lparr> decl_name = NameString ''verbose'', decl_default = JUndefined,
                 decl_description = None, decl_convertor = None \<rparr>"

definition padded_decl :: ExpectationType where
  "padded_decl = \<lparr> decl_name = NameArray [''port'', '' ''], decl_default = JUndefined,
                   decl_description = None, decl_convertor = None \<rparr>"

text \<open>A style without decoration, for evaluating help texts.\<close>

definition plain :: style where
  "plain = \<lparr> bold = (\<lambda>s. s), italic = (\<lambda>s. s), gray = (\<lambda>s. s), inspect = (\<lambda>v. ''?'') \<rparr>"

section \<open>Lookup and raw values\<close>

lemma getRaw_loop_find:
  "getRaw_loop r ns = (case find (\<lambda>n. r n \<noteq> JUndefined) ns of None \<Rightarrow> JUndefined | Some n \<Rightarrow> r n)"
  by (induction ns) simp_all

lemma has_name_iff: "has_name name ex \<longleftrightarrow> name \<in> set (names ex) \<and> name \<noteq> []"
proof (cases "find (\<lambda>n. n = name) (names ex)")
  case None
  then have "name \<notin> set (names ex)"
    by (auto simp: find_None_iff)
  with None show ?thesis by (simp add: has_name_def)
next
  case (Some n)
  then have "n = name" "n \<in> set (names ex)"
    by (auto simp: find_Some_iff)
  with Some show ?thesis by (simp add: has_name_def)
qed

lemma find_expectation_sound:
  "find_expectation a name = Some ex \<Longrightarrow>
     ex \<in> set (expectations a) \<and> name \<in> set (names ex) \<and> name \<noteq> []"
  unfolding find_expectation_def
  by (auto simp: find_Some_iff has_name_iff)

lemma find_expectation_first:
  assumes "expectations a = before @ ex # after"
    and "\<forall>e\<in>set before. name \<notin> set (names e)"
    and "name \<in> set (names ex)" and "name \<noteq> []"
  shows "find_expectation a name = Some ex"
proof -
  have "find (has_name name) (before @ ex # after) = Some ex"
    using assms(2-4) by (induction before) (simp_all add: has_name_iff)
  then show ?thesis by (simp add: find_expectation_def assms(1))
qed

lemma find_expectation_None:
  "find_expectation a name = None \<longleftrightarrow>
     (\<forall>ex\<in>set (expectations a). name \<notin> set (names ex) \<or> name = [])"
  by (auto simp: find_expectation_def find_None_iff has_name_iff)

lemma port_names: "normalize_names (NameString ''port,p'') = [''port'', ''p'']"
  by (simp add: normalize_names_def split_names_def trim_def is_space_def)

lemma port_expectation:
  "createExpectation (port_decl\<lparr>decl_default := d\<rparr>) =
     \<lparr> names = [''port'', ''p''], description = None, defaultValue = coalesce d JNull,
       convertor = Inr \<rparr>"
  by (simp add: createExpectation_def port_decl_def port_names normalize_description_def
        normalize_default_def normalize_convertor_def)

lemma find_port:
  "find_expectation (new_Arguments r [port_decl\<lparr>decl_default := d\<rparr>]) ''port''
     = Some (createExpectation (port_decl\<lparr>decl_default := d\<rparr>))"
  by (simp add: find_expectation_def new_Arguments_def createExpectations_def
        port_expectation has_name_def)

section \<open>The version expression\<close>

lemma takeWhile_digits_append:
  "list_all is_digit g \<Longrightarrow> takeWhile is_digit rest = [] \<Longrightarrow> takeWhile is_digit (g @ rest) = g"
  by (induction g) simp_all

lemma dropWhile_digits_append:
  "list_all is_digit g \<Longrightarrow> takeWhile is_digit rest = [] \<Longrightarrow> dropWhile is_digit (g @ rest) = rest"
proof (induction g)
  case Nil
  have "takeWhile is_digit rest @ dropWhile is_digit rest = rest" by simp
  with Nil show ?case by simp
next
  case (Cons c g)
  then show ?case by simp
qed

lemma join_Cons: "join sep (g # gs) = g @ concat (map (\<lambda>x. sep @ x) gs)"
  by (induction gs arbitrary: g) simp_all

lemma run_stops_no_digit: "run_stops post \<Longrightarrow> takeWhile is_digit post = []"
  by (cases post rule: run_stops.cases) simp_all

lemma not_digit_dot: "\<not> is_digit (CHR ''.'')"
  by (simp add: is_digit_def)

lemma not_digit_v: "\<not> is_digit (CHR ''v'')"
  by (simp add: is_digit_def)

lemma dotted_tail_groups:
  assumes "list_all digit_group gs" and "run_stops post"
  shows "dotted_tail (concat (map ((#) (CHR ''.'')) gs) @ post)
           = length (concat (map ((#) (CHR ''.'')) gs))"
  using assms(1)
proof (induction gs)
  case Nil
  show ?case using assms(2) by (cases post rule: run_stops.cases) simp_all
next
  case (Cons g gs)
  let ?rest = "concat (map ((#) (CHR ''.'')) gs) @ post"
  from Cons.prems obtain d ds where g: "g = d # ds" and dg: "list_all is_digit (d # ds)"
    by (cases g) (auto simp: digit_group_def)
  have nd: "takeWhile is_digit ?rest = []"
    using assms(2) by (cases gs) (simp_all add: run_stops_no_digit not_digit_dot)
  have tw: "takeWhile is_digit (d # ds @ ?rest) = d # ds"
    using takeWhile_digits_append [OF dg nd] by simp
  have dw: "dropWhile is_digit (d # ds @ ?rest) = ?rest"
    using dropWhile_digits_append [OF dg nd] by simp
  have "dotted_tail (CHR ''.'' # d # (ds @ ?rest))
          = Suc (length (takeWhile is_digit (d # ds @ ?rest)))
            + dotted_tail (dropWhile is_digit (d # ds @ ?rest))"
    using dg by simp
  also have "\<dots> = Suc (length (d # ds)) + length (concat (map ((#) (CHR ''.'')) gs))"
    using Cons by (simp only: tw dw) simp
  finally show ?case by (simp add: g)
qed

lemma match_version_run:
  assumes "gs \<noteq> []" and "list_all digit_group gs" and "run_stops post"
  shows "match_version (CHR ''v'' # join ''.'' gs @ post) = Some (length (join ''.'' gs))"
proof -
  from assms(1) obtain g gs' where gs: "gs = g # gs'" by (cases gs) auto
  let ?tail = "concat (map ((#) (CHR ''.'')) gs')"
  from assms(2) gs have g: "g \<noteq> []" "list_all is_digit g" and gs': "list_all digit_group gs'"
    by (simp_all add: digit_group_def)
  have nd: "takeWhile is_digit (?tail @ post) = []"
    using assms(3) by (cases gs') (simp_all add: run_stops_no_digit not_digit_dot)
  have tw: "takeWhile is_digit (g @ ?tail @ post) = g"
    by (rule takeWhile_digits_append [OF g(2) nd])
  have dw: "dropWhile is_digit (g @ ?tail @ post) = ?tail @ post"
    by (rule dropWhile_digits_append [OF g(2) nd])
  show ?thesis
    using g(1) dotted_tail_groups [OF gs' assms(3)]
    by (simp add: gs join_Cons tw dw)
qed

lemma replace_version_prefix:
  "no_vdigit pre \<Longrightarrow> takeWhile is_digit s = [] \<Longrightarrow>
     replace_version (pre @ s) = pre @ replace_version s"
proof (induction pre rule: no_vdigit.induct)
  case 1
  then show ?case by simp
next
  case (2 c)
  then show ?case by simp
next
  case (3 c d ds)
  then show ?case by auto
qed

lemma replace_version_untouched: "no_vdigit s \<Longrightarrow> replace_version s = s"
  using replace_version_prefix [of s "[]"] by simp

section \<open>Splitting and trimming names\<close>

lemma split_loop_token:
  "list_all token_char t \<Longrightarrow> split_loop piece (t @ s) = split_loop (piece @ t) s"
  by (induction t arbitrary: piece) (simp_all add: token_char_def)

lemma takeWhile_spaces_append:
  "list_all is_space w \<Longrightarrow> takeWhile is_space s = [] \<Longrightarrow> takeWhile is_space (w @ s) = w"
  by (induction w) simp_all

lemma split_loop_sep:
  assumes "is_sep x" and "takeWhile is_space s = []"
  shows "split_loop piece (x @ s) = piece # split_loop [] s"
proof -
  from assms(1) obtain c cs where x: "x = c # cs" and c: "is_space c \<or> c = CHR '',''"
    and cs: "list_all is_space cs"
    by (cases x) auto
  have "match_separator (c # cs @ s) = Some (Suc (length cs))"
    using c takeWhile_spaces_append [OF cs assms(2)] by auto
  then show ?thesis by (simp add: x)
qed

lemma token_no_leading_space: "is_token t \<Longrightarrow> takeWhile is_space (t @ s) = []"
  by (cases t) (simp_all add: is_token_def token_char_def)

lemma weave_no_leading_space: "is_token t \<Longrightarrow> takeWhile is_space (weave t rest) = []"
  by (cases rest) (auto simp: token_no_leading_space token_no_leading_space [of _ "[]", simplified])

lemma split_loop_weave:
  "list_all token_char t \<Longrightarrow> list_all (\<lambda>(sp, t'). is_sep sp \<and> is_token t') rest \<Longrightarrow>
     split_loop piece (weave t rest) = (piece @ t) # map snd rest"
proof (induction rest arbitrary: t piece)
  case Nil
  then show ?case using split_loop_token [of t piece "[]"] by simp
next
  case (Cons a rest)
  obtain sp t' where a: "a = (sp, t')" by (cases a)
  from Cons.prems a have sp: "is_sep sp" and t': "is_token t'"
    and rest: "list_all (\<lambda>(sp, t'). is_sep sp \<and> is_token t') rest"
    by simp_all
  have "split_loop piece (t @ sp @ weave t' rest) = split_loop (piece @ t) (sp @ weave t' rest)"
    by (rule split_loop_token [OF Cons.prems(1)])
  also have "\<dots> = (piece @ t) # split_loop [] (weave t' rest)"
    by (rule split_loop_sep [OF sp weave_no_leading_space [OF t']])
  also have "split_loop [] (weave t' rest) = t' # map snd rest"
    using Cons.IH [of t' "[]"] t' rest by (simp add: is_token_def)
  finally show ?case by (simp add: a)
qed

lemma trim_Nil_iff: "trim s = [] \<longleftrightarrow> list_all is_space s"
proof -
  let ?d = "dropWhile is_space s"
  have "set s = set (takeWhile is_space s) \<union> set ?d"
    by (metis set_append takeWhile_dropWhile_id)
  then have "(\<forall>c\<in>set ?d. is_space c) \<longleftrightarrow> (\<forall>c\<in>set s. is_space c)"
    using set_takeWhileD [of _ is_space s] by blast
  moreover have "trim s = [] \<longleftrightarrow> (\<forall>c\<in>set ?d. is_space c)"
    unfolding trim_def by (simp only: rev_is_Nil_conv dropWhile_eq_Nil_conv set_rev)
  ultimately show ?thesis by (simp only: list_all_iff)
qed

lemma trimmed_trim: "trimmed (trim s)"
proof (cases "trim s = []")
  case True
  then show ?thesis by (simp add: trimmed_def)
next
  case False
  let ?d = "dropWhile is_space s"
  let ?r = "dropWhile is_space (rev ?d)"
  from False have r: "?r \<noteq> []" by (simp add: trim_def)
  have d: "?d \<noteq> []"
  proof
    assume e: "?d = []"
    from r show False unfolding e by simp
  qed
  have "\<not> is_space (hd ?r)" using r by (rule hd_dropWhile)
  then have l: "\<not> is_space (last (trim s))"
    using r by (simp add: trim_def last_rev)
  have "rev ?d = takeWhile is_space (rev ?d) @ ?r" by simp
  then have "last (rev ?d) = last ?r"
    using r by (metis last_appendR)
  then have "last ?r = hd ?d" using d by (simp add: last_rev)
  moreover have "\<not> is_space (hd ?d)" using d by (rule hd_dropWhile)
  ultimately have "\<not> is_space (hd (trim s))"
    using r by (simp add: trim_def hd_rev)
  with l show ?thesis by (simp add: trimmed_def)
qed

lemma trim_trimmed: "trimmed s \<Longrightarrow> trim s = s"
proof (cases "s = []")
  case True
  then show ?thesis by (simp add: trim_def)
next
  case False
  assume "trimmed s"
  with False have h: "\<not> is_space (hd s)" and l: "\<not> is_space (last s)"
    by (simp_all add: trimmed_def)
  from False h have d: "dropWhile is_space s = s"
    by (cases s) simp_all
  from False l have "dropWhile is_space (rev s) = rev s"
    by (cases "rev s") (simp_all add: last_rev [symmetric] hd_rev)
  with d show ?thesis by (simp add: trim_def)
qed

lemma split_loop_pieces:
  "list_all token_char piece \<Longrightarrow> x \<in> set (split_loop piece s) \<Longrightarrow> list_all token_char x"
proof (induction piece s rule: split_loop.induct)
  case (1 piece)
  then show ?case by simp
next
  case (2 piece c cs)
  show ?case
  proof (cases "match_separator (c # cs)")
    case None
    then have "token_char c" by (simp add: token_char_def split: if_splits)
    with 2 None show ?thesis by simp
  next
    case (Some k)
    with 2 show ?thesis by auto
  qed
qed

lemma token_chars_trimmed: "list_all token_char x \<Longrightarrow> trimmed x"
proof (cases "x = []")
  case True then show ?thesis by (simp add: trimmed_def)
next
  case False
  assume a: "list_all token_char x"
  from False have "hd x \<in> set x" "last x \<in> set x" by simp_all
  with a have "token_char (hd x)" "token_char (last x)" by (simp_all add: list_all_iff)
  then show ?thesis by (simp add: trimmed_def token_char_def)
qed

lemma names_trimmed: "al \<in> set (normalize_names n) \<Longrightarrow> trimmed al"
proof (cases n)
  case (NameString s)
  assume "al \<in> set (normalize_names n)"
  with NameString have "al \<in> set (split_loop [] (trim s))"
    by (simp add: normalize_names_def split_names_def)
  then have "list_all token_char al"
    using split_loop_pieces [of "[]" al "trim s"] by simp
  then show ?thesis by (rule token_chars_trimmed)
next
  case (NameArray ms)
  assume "al \<in> set (normalize_names n)"
  with NameArray show ?thesis by (auto simp: normalize_names_def trimmed_trim)
qed

lemma weave_last: "is_token t \<Longrightarrow> list_all (\<lambda>(sp, t'). is_sep sp \<and> is_token t') rest \<Longrightarrow>
  weave t rest \<noteq> [] \<and> token_char (last (weave t rest))"
proof (induction rest arbitrary: t)
  case Nil
  then have "last t \<in> set t" by (simp add: is_token_def)
  with Nil show ?case by (simp add: is_token_def list_all_iff)
next
  case (Cons a rest)
  obtain sp t' where a: "a = (sp, t')" by (cases a)
  with Cons.prems have "is_token t'" "list_all (\<lambda>(sp, t'). is_sep sp \<and> is_token t') rest"
    by simp_all
  from Cons.IH [OF this] show ?case by (simp add: a)
qed

lemma weave_trimmed:
  assumes "is_token t" and "list_all (\<lambda>(sp, t'). is_sep sp \<and> is_token t') rest"
  shows "trimmed (weave t rest)"
proof -
  from assms(1) have "takeWhile is_space (weave t rest) = []"
    by (rule weave_no_leading_space)
  moreover from weave_last [OF assms] have n: "weave t rest \<noteq> []"
    and "\<not> is_space (last (weave t rest))"
    by (simp_all add: token_char_def)
  ultimately show ?thesis
    by (cases "weave t rest") (simp_all add: trimmed_def split: if_splits)
qed

lemma trim_padded:
  assumes "trimmed w" and "list_all is_space lead" and "list_all is_space trail"
  shows "trim (lead @ w @ trail) = w"
proof (cases "w = []")
  case True
  with assms(2,3) have "list_all is_space (lead @ w @ trail)" by simp
  then show ?thesis using True by (simp only: trim_Nil_iff [symmetric])
next
  case False
  with assms(1) have h: "\<not> is_space (hd w)" and l: "\<not> is_space (last w)"
    by (simp_all add: trimmed_def)
  from False h have "takeWhile is_space (w @ trail) = []"
    by (cases w) simp_all
  then have "dropWhile is_space (w @ trail) = w @ trail"
    by (metis append_Nil takeWhile_dropWhile_id)
  then have d: "dropWhile is_space (lead @ w @ trail) = w @ trail"
    using assms(2) by (induction lead) simp_all
  from False l have "takeWhile is_space (rev w) = []"
    by (cases "rev w") (simp_all add: last_rev [symmetric] hd_rev)
  then have "dropWhile is_space (rev w) = rev w"
    by (metis append_Nil takeWhile_dropWhile_id)
  moreover have "dropWhile is_space (rev trail @ rev w) = dropWhile is_space (rev w)"
    using assms(3) by (induction trail rule: rev_induct) simp_all
  ultimately show ?thesis by (simp add: trim_def d)
qed

lemma names_of_weave:
  assumes "is_token t" and "list_all (\<lambda>(sp, t'). is_sep sp \<and> is_token t') rest"
    and "list_all is_space lead" and "list_all is_space trail"
  shows "normalize_names (NameString (lead @ weave t rest @ trail)) = t # map snd rest"
proof -
  have "trim (lead @ weave t rest @ trail) = weave t rest"
    by (rule trim_padded [OF weave_trimmed [OF assms(1,2)] assms(3,4)])
  moreover have "split_loop [] (weave t rest) = t # map snd rest"
    using split_loop_weave [of t rest "[]"] assms(1,2) by (simp add: is_token_def)
  ultimately show ?thesis by (simp add: normalize_names_def split_names_def)
qed

lemma token_trim: "is_token t \<Longrightarrow> trim t = t"
  by (rule trim_trimmed, rule token_chars_trimmed) (simp add: is_token_def)

lemma names_of_token_array:
  assumes "is_token t" and "list_all (\<lambda>(sp, t'). is_sep sp \<and> is_token t') rest"
  shows "normalize_names (NameArray (t # map snd rest)) = t # map snd rest"
proof -
  have "map trim (map snd rest) = map snd rest"
    using assms(2) by (induction rest) (auto simp: token_trim)
  then show ?thesis using assms(1) by (simp add: normalize_names_def token_trim)
qed

section \<open>Calls that assign no field\<close>



lemma port_decl_expectation:
  "createExpectation port_decl =
     \<lparr> names = [''port'', ''p''], description = None, defaultValue = JNum (Fin 3000),
       convertor = Inr \<rparr>"
proof -
  have "port_decl = port_decl\<lparr>decl_default := JNum (Fin 3000)\<rparr>"
    by (simp add: port_decl_def)
  then have "createExpectation port_decl
               = createExpectation (port_decl\<lparr>decl_default := JNum (Fin 3000)\<rparr>)"
    by simp
  then show ?thesis
    by (simp only: port_expectation) (simp add: coalesce_def nullish_def)
qed

section \<open>Alias splitting on the documented examples\<close>

lemma names_examples:
  "normalize_names (NameString ''port, p'') = [''port'', ''p'']"
  "normalize_names (NameString ''port p'') = [''port'', ''p'']"
  "normalize_names (NameString ''port,p'') = [''port'', ''p'']"
  "normalize_names (NameArray ['' port p '', ''p '']) = [''port p'', ''p'']"
  by (simp_all add: normalize_names_def split_names_def trim_def is_space_def)

lemma names_array_not_split: "normalize_names (NameArray ms) = map trim ms"
  by (simp add: normalize_names_def)

section \<open>Properties of the specification\<close>



text \<open>
  C2. For a name that is an alias of no declared expectation, \<^verbatim>\<open>get(name)\<close> throws a
  plain \<^verbatim>\<open>Error\<close>, and \<^verbatim>\<open>isArgumentException\<close> is false of that error.
\<close>

theorem get_undeclared:
  assumes "\<forall>ex\<in>set (expectations a). name \<notin> set (names ex)"
  shows "get a name = Inl (Error (not_found_message name))
         \<and> \<not> isArgumentException (Error (not_found_message name))"
proof -
  from assms have "find_expectation a name = None"
    by (simp add: find_expectation_None)
  then show ?thesis by (simp add: get_def)
qed

theorem get_undeclared_witness:
  \<open>get (new_Arguments raw_empty [port_decl]) ''nonexistent''
     = Inl (Error ''Argument "nonexistent" is not found.'')
   \<and> \<not> isArgumentException (Error ''Argument "nonexistent" is not found.'')\<close>
proof -
  let ?a = "new_Arguments raw_empty [port_decl]"
  have "\<forall>ex\<in>set (expectations ?a). ''nonexistent'' \<notin> set (names ex)"
    by (simp add: new_Arguments_def createExpectations_def port_decl_expectation)
  from get_undeclared [OF this] show ?thesis
    by (simp add: not_found_message_def)
qed

text \<open>
  C3. A name written as one string with commas and white space between the tokens
  should give the alias list of the array of those tokens. At \<^verbatim>\<open>"port , p"\<close>, with
  white space before the comma, the split gives an empty alias between the two tokens,
  while the array of the tokens gives the two tokens.
\<close>

theorem names_space_before_comma:
  "normalize_names (NameString ''port , p'') = [''port'', [], ''p'']
   \<and> normalize_names (NameArray [''port'', ''p'']) = [''port'', ''p'']"
  by (simp add: normalize_names_def split_names_def trim_def is_space_def)

text \<open>
  C4, as stated: every alias of a declaration with a non-empty name is trimmed and
  non-empty. The array \<^verbatim>\<open>["port", " "]\<close> is not empty, and its second alias is the
  empty string.
\<close>

theorem empty_alias_from_array:
  "decl_name padded_decl \<noteq> NameArray []
   \<and> names (createExpectation padded_decl) = [''port'', []]
   \<and> [] \<in> set (names (createExpectation padded_decl))"
  by (simp add: padded_decl_def createExpectation_def normalize_names_def trim_def is_space_def)

text \<open>
  C4, amended. Every alias of every declaration is trimmed. The aliases are all
  non-empty when the name is an array none of whose elements is empty or white space
  only, and when the name is a string of tokens separated by runs of white space or by
  a comma followed by any white space, with any white space around the whole.
\<close>

theorem aliases_trimmed:
  "(\<forall>al\<in>set (names (createExpectation d)). trimmed al)
   \<and> (decl_name d = NameArray ms \<and> (\<forall>m\<in>set ms. \<not> list_all is_space m)
        \<longrightarrow> (\<forall>al\<in>set (names (createExpectation d)). al \<noteq> []))
   \<and> (decl_name d = NameString (lead @ weave t rest @ trail)
        \<and> list_all is_space lead \<and> list_all is_space trail
        \<and> is_token t \<and> list_all (\<lambda>(sp, t'). is_sep sp \<and> is_token t') rest
        \<longrightarrow> (\<forall>al\<in>set (names (createExpectation d)). al \<noteq> []))"
proof -
  have n: "names (createExpectation d) = normalize_names (decl_name d)"
    by (simp add: createExpectation_def)
  have c1: "\<forall>al\<in>set (names (createExpectation d)). trimmed al"
    by (simp add: n names_trimmed)
  have c2: "\<forall>al\<in>set (names (createExpectation d)). al \<noteq> []"
    if "decl_name d = NameArray ms \<and> (\<forall>m\<in>set ms. \<not> list_all is_space m)"
    using that by (auto simp: n normalize_names_def trim_Nil_iff)
  have c3: "\<forall>al\<in>set (names (createExpectation d)). al \<noteq> []"
    if h: "decl_name d = NameString (lead @ weave t rest @ trail)
        \<and> list_all is_space lead \<and> list_all is_space trail
        \<and> is_token t \<and> list_all (\<lambda>(sp, t'). is_sep sp \<and> is_token t') rest"
  proof -
    from h have "names (createExpectation d) = t # map snd rest"
      by (simp add: n names_of_weave)
    moreover from h have "t \<noteq> []" by (simp add: is_token_def)
    moreover from h have "\<forall>x\<in>set rest. snd x \<noteq> []"
      by (auto simp: list_all_iff is_token_def)
    ultimately show ?thesis by auto
  qed
  from c1 c2 c3 show ?thesis by blast
qed

theorem aliases_trimmed_witness:
  "names (createExpectation port_decl) = [''port'', ''p'']
   \<and> list_all (\<lambda>al. trimmed al \<and> al \<noteq> []) (names (createExpectation port_decl))
   \<and> list_all (\<lambda>al. trimmed al \<and> al \<noteq> [])
        (names (createExpectation (port_decl\<lparr>decl_name := NameArray ['' port'', ''p '']\<rparr>)))"
proof -
  let ?d = "port_decl\<lparr>decl_name := NameArray ['' port'', ''p '']\<rparr>"
  have w: "decl_name port_decl = NameString ([] @ weave ''port'' [('','', ''p'')] @ [])"
    by (simp add: port_decl_def)
  have h: "list_all is_space [] \<and> list_all is_space [] \<and> is_token ''port''
           \<and> list_all (\<lambda>(sp, t'). is_sep sp \<and> is_token t') [('','', ''p'')]"
    by (simp add: is_token_def token_char_def is_space_def)
  have a: "decl_name ?d = NameArray ['' port'', ''p '']
           \<and> (\<forall>m\<in>set ['' port'', ''p '']. \<not> list_all is_space m)"
    by (simp add: is_space_def)
  from aliases_trimmed [of port_decl "[]" "[]" "''port''" "[('','', ''p'')]" "[]"] w h
  have "\<forall>al\<in>set (names (createExpectation port_decl)). trimmed al \<and> al \<noteq> []"
    by blast
  moreover from aliases_trimmed [of ?d "['' port'', ''p '']" "[]" "[]" "[]" "[]"] a
  have "\<forall>al\<in>set (names (createExpectation ?d)). trimmed al \<and> al \<noteq> []"
    by blast
  ultimately show ?thesis
    by (simp only: list_all_iff port_decl_expectation) simp
qed

text \<open>
  C5, as stated: only \<^verbatim>\<open>undefined\<close> is normalized to the absent state. A declared
  default of \<^verbatim>\<open>null\<close> is not \<^verbatim>\<open>undefined\<close>, and it is stored as the same absent
  state as a default that was left out; the help text has no default line for it.
\<close>

theorem default_null_collapses:
  "decl_default (port_decl\<lparr>decl_default := JNull\<rparr>) \<noteq> JUndefined
   \<and> defaultValue (createExpectation (port_decl\<lparr>decl_default := JNull\<rparr>))
       = defaultValue (createExpectation (port_decl\<lparr>decl_default := JUndefined\<rparr>))
   \<and> default_lines plain (createExpectation (port_decl\<lparr>decl_default := JNull\<rparr>)) = []"
  by (simp add: port_expectation coalesce_def nullish_def default_lines_def)

text \<open>
  C5, amended. The default is normalized to the absent state exactly when it is
  \<^verbatim>\<open>undefined\<close> or \<^verbatim>\<open>null\<close>; every other default, \<open>0\<close>, \<^verbatim>\<open>false\<close> and the empty
  string among them, is kept as it is and is not absent; and when no alias of the
  expectation is present in the raw flag map, \<^verbatim>\<open>get\<close> returns the convertor applied
  to that kept default.
\<close>

theorem default_normalization:
  "(normalize_default d = JNull \<longleftrightarrow> d = JUndefined \<or> d = JNull)
   \<and> (d \<noteq> JUndefined \<and> d \<noteq> JNull \<longrightarrow> normalize_default d = d)
   \<and> normalize_default (JNum (Fin 0)) = JNum (Fin 0)
   \<and> normalize_default (JBool False) = JBool False
   \<and> normalize_default (JStr []) = JStr []
   \<and> (find_expectation a name = Some (createExpectation dcl)
        \<and> decl_default dcl \<noteq> JUndefined \<and> decl_default dcl \<noteq> JNull
        \<and> (\<forall>n\<in>set (names (createExpectation dcl)). raw a n = JUndefined)
      \<longrightarrow> get a name = convertor (createExpectation dcl) (decl_default dcl))"
proof -
  have "get a name = convertor (createExpectation dcl) (decl_default dcl)"
    if f: "find_expectation a name = Some (createExpectation dcl)"
      and d: "decl_default dcl \<noteq> JUndefined" "decl_default dcl \<noteq> JNull"
      and r: "\<forall>n\<in>set (names (createExpectation dcl)). raw a n = JUndefined"
  proof -
    from r have "find (\<lambda>n. raw a n \<noteq> JUndefined) (names (createExpectation dcl)) = None"
      by (simp add: find_None_iff)
    then have "getRaw a (names (createExpectation dcl)) = JUndefined"
      by (simp add: getRaw_def getRaw_loop_find)
    moreover have "defaultValue (createExpectation dcl) = decl_default dcl"
      using d by (simp add: createExpectation_def normalize_default_def coalesce_def nullish_def)
    ultimately show ?thesis
      using f by (simp add: get_def coalesce_def nullish_def)
  qed
  then show ?thesis
    by (auto simp: normalize_default_def coalesce_def nullish_def)
qed

theorem default_normalization_witness:
  "get (new_Arguments raw_empty [port_decl\<lparr>decl_default := JNum (Fin 0)\<rparr>]) ''port''
     = Inr (JNum (Fin 0))"
proof -
  let ?d = "port_decl\<lparr>decl_default := JNum (Fin 0)\<rparr>"
  let ?a = "new_Arguments raw_empty [?d]"
  have r: "\<forall>n\<in>set (names (createExpectation ?d)). raw ?a n = JUndefined"
    by (simp add: port_expectation new_Arguments_def raw_empty_def)
  have d: "decl_default ?d \<noteq> JUndefined \<and> decl_default ?d \<noteq> JNull"
    by simp
  from default_normalization [of "JNum (Fin 0)" ?a "''port''" ?d] find_port [of raw_empty "JNum (Fin 0)"] r d
  show ?thesis
    by (simp add: port_expectation coalesce_def nullish_def)
qed

text \<open>
  C6. \<^verbatim>\<open>shouldHelp()\<close> is true exactly when the raw flag map holds a truthy value
  under \<^verbatim>\<open>help\<close>, that is, a value other than \<^verbatim>\<open>undefined\<close> (the flag is absent),
  \<^verbatim>\<open>null\<close>, \<^verbatim>\<open>false\<close>, \<open>0\<close>, \<open>-0\<close>, \<^verbatim>\<open>NaN\<close>, \<^verbatim>\<open>0n\<close> and the empty string. It
  is false when the flag is absent, \<^verbatim>\<open>false\<close>, \<open>0\<close> or the empty string, and true
  when the flag is \<^verbatim>\<open>true\<close>, a non-empty string, a number other than zero, or an
  array or object.
\<close>

theorem shouldHelp_truthy:
  "shouldHelp a = truthy (raw a ''help'')
   \<and> shouldHelp a =
       (raw a ''help'' \<noteq> JUndefined \<and> raw a ''help'' \<noteq> JNull
        \<and> raw a ''help'' \<noteq> JBool False \<and> raw a ''help'' \<noteq> JNum (Fin 0)
        \<and> raw a ''help'' \<noteq> JNum NegZero \<and> raw a ''help'' \<noteq> JNum NaN
        \<and> raw a ''help'' \<noteq> JBigInt 0 \<and> raw a ''help'' \<noteq> JStr [])
   \<and> shouldHelp (a\<lparr>raw := (raw a)(''help'' := JUndefined)\<rparr>) = False
   \<and> shouldHelp (a\<lparr>raw := (raw a)(''help'' := JBool False)\<rparr>) = False
   \<and> shouldHelp (a\<lparr>raw := (raw a)(''help'' := JNum (Fin 0))\<rparr>) = False
   \<and> shouldHelp (a\<lparr>raw := (raw a)(''help'' := JStr [])\<rparr>) = False
   \<and> shouldHelp (a\<lparr>raw := (raw a)(''help'' := JBool True)\<rparr>) = True
   \<and> shouldHelp (a\<lparr>raw := (raw a)(''help'' := JStr ''false'')\<rparr>) = True
   \<and> shouldHelp (a\<lparr>raw := (raw a)(''help'' := JNum (Fin 1))\<rparr>) = True
   \<and> shouldHelp (a\<lparr>raw := (raw a)(''help'' := JObj r)\<rparr>) = True"
proof -
  have g: "getRaw b [''help''] = raw b ''help''" for b
    by (simp add: getRaw_def)
  have t: "truthy v =
      (v \<noteq> JUndefined \<and> v \<noteq> JNull \<and> v \<noteq> JBool False \<and> v \<noteq> JNum (Fin 0)
       \<and> v \<noteq> JNum NegZero \<and> v \<noteq> JNum NaN \<and> v \<noteq> JBigInt 0 \<and> v \<noteq> JStr [])" for v
  proof (cases v)
    case (JNum n)
    then show ?thesis by (cases n) simp_all
  qed simp_all
  have c1: "shouldHelp a = truthy (raw a ''help'')"
    by (simp add: shouldHelp_def g)
  have c2: "shouldHelp a =
       (raw a ''help'' \<noteq> JUndefined \<and> raw a ''help'' \<noteq> JNull
        \<and> raw a ''help'' \<noteq> JBool False \<and> raw a ''help'' \<noteq> JNum (Fin 0)
        \<and> raw a ''help'' \<noteq> JNum NegZero \<and> raw a ''help'' \<noteq> JNum NaN
        \<and> raw a ''help'' \<noteq> JBigInt 0 \<and> raw a ''help'' \<noteq> JStr [])"
    unfolding c1 by (rule t)
  have c3: "shouldHelp (a\<lparr>raw := (raw a)(''help'' := v)\<rparr>) = truthy v" for v
    by (simp add: shouldHelp_def g)
  show ?thesis
    unfolding c3 using c1 c2 by simp
qed

theorem shouldHelp_truthy_witness:
  "shouldHelp (new_Arguments (raw_empty(''help'' := JBool True)) [port_decl]) = True
   \<and> shouldHelp (new_Arguments (raw_empty(''help'' := JStr ''yes'')) [port_decl]) = True
   \<and> shouldHelp (new_Arguments raw_empty [port_decl]) = False
   \<and> shouldHelp (new_Arguments (raw_empty(''help'' := JBool False)) [port_decl]) = False
   \<and> shouldHelp (new_Arguments (raw_empty(''help'' := JNum (Fin 0))) [port_decl]) = False
   \<and> shouldHelp (new_Arguments (raw_empty(''help'' := JStr [])) [port_decl]) = False"
proof -
  have "shouldHelp (new_Arguments f [port_decl]) =
       (f ''help'' \<noteq> JUndefined \<and> f ''help'' \<noteq> JNull
        \<and> f ''help'' \<noteq> JBool False \<and> f ''help'' \<noteq> JNum (Fin 0)
        \<and> f ''help'' \<noteq> JNum NegZero \<and> f ''help'' \<noteq> JNum NaN
        \<and> f ''help'' \<noteq> JBigInt 0 \<and> f ''help'' \<noteq> JStr [])" for f
    using shouldHelp_truthy [of "new_Arguments f [port_decl]" 0, THEN conjunct2, THEN conjunct1]
    by (simp only: new_Arguments_def arguments.simps)
  then show ?thesis
    by (simp add: raw_empty_def)
qed

text \<open>
  C7, as stated: \<^verbatim>\<open>setVersion("release-2.0")\<close> strips the dotted run of digits. No
  \<^verbatim>\<open>v\<close> stands before the run \<^verbatim>\<open>2.0\<close>, the expression matches nowhere, and the
  text is stored as it was given: nothing is stripped.
\<close>

theorem release_stored_unchanged:
  "match_version ''2.0'' = None
   \<and> version (setVersion ''release-2.0'' (new_Arguments raw_empty [])) = Some ''release-2.0''
   \<and> version (setVersion ''release-2.0'' (new_Arguments raw_empty [])) \<noteq> Some ''release-''"
  by (simp add: setVersion_def is_digit_def)

text \<open>
  C7, amended. \<^verbatim>\<open>setVersion\<close> stores its argument with the \<^verbatim>\<open>v\<close> removed in front
  of each dotted run of digits that directly follows a \<^verbatim>\<open>v\<close>, and everything else as
  it was: \<^verbatim>\<open>"v1.2.3"\<close> is stored as \<^verbatim>\<open>"1.2.3"\<close>; \<^verbatim>\<open>"release-2.0"\<close>, where no
  \<^verbatim>\<open>v\<close> stands before the run, is stored unchanged; in general a run
  \<open>join ''.'' gs\<close> of groups of digits that follows a \<^verbatim>\<open>v\<close> loses that \<^verbatim>\<open>v\<close>, the
  text before it (in which nothing matches) is kept, and the text after it is treated
  in the same way; a text in which nothing matches is stored unchanged.
\<close>

theorem setVersion_strips_v:
  "version (setVersion ''v1.2.3'' a) = Some ''1.2.3''
   \<and> version (setVersion ''release-2.0'' a) = Some ''release-2.0''
   \<and> (gs \<noteq> [] \<and> list_all digit_group gs \<and> no_vdigit pre \<and> run_stops post
        \<longrightarrow> version (setVersion (pre @ ''v'' @ join ''.'' gs @ post) a)
              = Some (pre @ join ''.'' gs @ replace_version post))
   \<and> (no_vdigit s \<longrightarrow> version (setVersion s a) = Some s)"
proof -
  have ex1: "replace_version ''v1.2.3'' = ''1.2.3''"
    by (simp add: is_digit_def)
  have ex2: "replace_version ''release-2.0'' = ''release-2.0''"
    by (simp add: is_digit_def)
  have run: "replace_version (pre @ ''v'' @ join ''.'' gs @ post)
               = pre @ join ''.'' gs @ replace_version post"
    if "gs \<noteq> []" "list_all digit_group gs" "no_vdigit pre" "run_stops post"
  proof -
    have "replace_version (CHR ''v'' # join ''.'' gs @ post) = join ''.'' gs @ replace_version post"
      using match_version_run [OF that(1,2,4)] by simp
    moreover have "takeWhile is_digit (CHR ''v'' # join ''.'' gs @ post) = []"
      by (simp add: not_digit_v)
    ultimately show ?thesis
      using replace_version_prefix [OF that(3), of "CHR ''v'' # join ''.'' gs @ post"] by simp
  qed
  have c1: "version (setVersion ''v1.2.3'' a) = Some ''1.2.3''"
    by (simp only: setVersion_def ex1) simp
  have c2: "version (setVersion ''release-2.0'' a) = Some ''release-2.0''"
    by (simp only: setVersion_def ex2) simp
  have c3: "version (setVersion (pre @ ''v'' @ join ''.'' gs @ post) a)
              = Some (pre @ join ''.'' gs @ replace_version post)"
    if "gs \<noteq> [] \<and> list_all digit_group gs \<and> no_vdigit pre \<and> run_stops post"
    using that run by (simp add: setVersion_def)
  have c4: "version (setVersion s a) = Some s" if "no_vdigit s"
    using that by (simp add: setVersion_def replace_version_untouched)
  from c1 c2 c3 c4 show ?thesis by blast
qed

theorem setVersion_strips_v_witness:
  "version (setVersion ''release-v2.0-beta'' (new_Arguments raw_empty [])) = Some ''release-2.0-beta''"
proof -
  have h: "[''2'', ''0''] \<noteq> [] \<and> list_all digit_group [''2'', ''0''] \<and> no_vdigit ''release-''
           \<and> run_stops ''-beta''"
    by (simp add: digit_group_def is_digit_def)
  have r: "replace_version ''-beta'' = ''-beta''"
    by (simp add: is_digit_def)
  from setVersion_strips_v [of "new_Arguments raw_empty []" "[''2'', ''0'']" "''release-''" "''-beta''" "[]"] h r
  show ?thesis by simp
qed

text \<open>
  C8. In the help text the block of an expectation declared without a default has no
  default line, the block of one declared without a description has no description
  lines, and the block of one declared with neither is its header line alone. An
  instance whose description and version were never set contributes nothing before
  the blocks; with only a description set the text starts with that description and
  no line separator follows it but the one before the blocks; with only a version set
  the text starts with the version line.
\<close>

theorem help_omits_absent:
  "(decl_default d = JUndefined \<longrightarrow>
      doc_lines sty (createExpectation d)
        = header_line sty (createExpectation d) # description_lines sty (createExpectation d))
   \<and> (decl_description d = None \<longrightarrow>
      doc_lines sty (createExpectation d)
        = header_line sty (createExpectation d) # default_lines sty (createExpectation d))
   \<and> (decl_default d = JUndefined \<and> decl_description d = None \<longrightarrow>
      doc sty (createExpectation d) = [CHR 0x0A] @ header_line sty (createExpectation d) @ [CHR 0x0A])
   \<and> (desciprion a = None \<and> version a = None \<longrightarrow>
      getHelpMessage sty a = docs sty (expectations a))
   \<and> (desciprion a = Some t \<and> t \<noteq> [] \<and> version a = None \<longrightarrow>
      getHelpMessage sty a =
        (if docs sty (expectations a) = [] then t else t @ [CHR 0x0A] @ docs sty (expectations a)))
   \<and> (desciprion a = None \<and> version a = Some v \<and> v \<noteq> [] \<longrightarrow>
      getHelpMessage sty a =
        join [CHR 0x0A]
          (filter (\<lambda>s. s \<noteq> [])
             [gray sty (italic sty (''Verze: '' @ v)), docs sty (expectations a)]))"
  by (simp add: doc_def doc_lines_def default_lines_def description_lines_def createExpectation_def
        normalize_default_def normalize_description_def coalesce_def nullish_def
        getHelpMessage_def session_lines_def)

theorem help_omits_absent_witness:
  "doc plain (createExpectation flag_decl) = [CHR 0x0A] @ ''  --verbose'' @ [CHR 0x0A]
   \<and> getHelpMessage plain (new_Arguments raw_empty [flag_decl])
       = [CHR 0x0A] @ ''  --verbose'' @ [CHR 0x0A]"
proof -
  let ?a = "new_Arguments raw_empty [flag_decl]"
  have d: "decl_default flag_decl = JUndefined \<and> decl_description flag_decl = None"
    by (simp add: flag_decl_def)
  have m: "desciprion ?a = None \<and> version ?a = None"
    by (simp add: new_Arguments_def)
  have h: "header_line plain (createExpectation flag_decl) = ''  --verbose''"
    by (simp add: header_line_def createExpectation_def flag_decl_def normalize_names_def
          split_names_def trim_def is_space_def plain_def)
  from help_omits_absent [of flag_decl plain ?a "[]" "[]"] d m
  have "doc plain (createExpectation flag_decl)
          = [CHR 0x0A] @ header_line plain (createExpectation flag_decl) @ [CHR 0x0A]"
    and "getHelpMessage plain ?a = docs plain (expectations ?a)"
    by blast+
  then show ?thesis
    by (simp add: h docs_def new_Arguments_def createExpectations_def)
qed



text \<open>
  C10, as stated: a defined but falsy raw value under one of the aliases is what the
  convertor is applied to. With \<^verbatim>\<open>port\<close> holding \<open>8080\<close> and its alias \<^verbatim>\<open>p\<close>
  holding \<open>0\<close>, \<^verbatim>\<open>get("port")\<close> and \<^verbatim>\<open>get("p")\<close> are the convertor applied to
  \<open>8080\<close>, not to the \<open>0\<close> under \<^verbatim>\<open>p\<close>.
\<close>

theorem later_falsy_alias_not_used:
  "raw (new_Arguments (raw_empty(''port'' := JNum (Fin 8080), ''p'' := JNum (Fin 0))) [port_decl]) ''p''
     = JNum (Fin 0)
   \<and> ''p'' \<in> set (names (createExpectation port_decl))
   \<and> find_expectation
        (new_Arguments (raw_empty(''port'' := JNum (Fin 8080), ''p'' := JNum (Fin 0))) [port_decl]) ''p''
       = Some (createExpectation port_decl)
   \<and> get (new_Arguments (raw_empty(''port'' := JNum (Fin 8080), ''p'' := JNum (Fin 0))) [port_decl]) ''p''
       = Inr (JNum (Fin 8080))
   \<and> get (new_Arguments (raw_empty(''port'' := JNum (Fin 8080), ''p'' := JNum (Fin 0))) [port_decl]) ''port''
       = Inr (JNum (Fin 8080))
   \<and> convertor (createExpectation port_decl) (JNum (Fin 0)) = Inr (JNum (Fin 0))
   \<and> get (new_Arguments (raw_empty(''port'' := JNum (Fin 8080), ''p'' := JNum (Fin 0))) [port_decl]) ''port''
       \<noteq> convertor (createExpectation port_decl) (JNum (Fin 0))"
  by (simp add: port_decl_expectation get_def find_expectation_def has_name_def new_Arguments_def
        createExpectations_def getRaw_def raw_empty_def coalesce_def nullish_def)

text \<open>
  C10, amended. When the first alias, in alias order, that is present in the raw flag
  map holds \<^verbatim>\<open>false\<close>, \<open>0\<close> or the empty string, \<^verbatim>\<open>get\<close> returns the convertor
  applied to that value, not to the declared default.
\<close>

theorem falsy_raw_beats_default:
  assumes "find_expectation a name = Some ex"
    and "find (\<lambda>n. raw a n \<noteq> JUndefined) (names ex) = Some n"
    and "raw a n \<in> {JBool False, JNum (Fin 0), JStr []}"
  shows "get a name = convertor ex (raw a n)"
proof -
  from assms(3) have "\<not> nullish (raw a n)"
    by (auto simp: nullish_def)
  then show ?thesis
    using assms(1,2) by (simp add: get_def getRaw_def getRaw_loop_find coalesce_def)
qed

theorem falsy_raw_beats_default_witness:
  "get (new_Arguments (raw_empty(''p'' := JBool False)) [port_decl\<lparr>decl_default := JNum (Fin 3000)\<rparr>]) ''port''
     = Inr (JBool False)"
proof -
  let ?d = "port_decl\<lparr>decl_default := JNum (Fin 3000)\<rparr>"
  let ?a = "new_Arguments (raw_empty(''p'' := JBool False)) [?d]"
  have f: "find (\<lambda>n. raw ?a n \<noteq> JUndefined) (names (createExpectation ?d)) = Some ''p''"
    by (simp add: port_expectation new_Arguments_def raw_empty_def)
  have v: "raw ?a ''p'' \<in> {JBool False, JNum (Fin 0), JStr []}"
    by (simp add: new_Arguments_def)
  from falsy_raw_beats_default [OF find_port f v] show ?thesis
    by (simp add: port_expectation new_Arguments_def)
qed

end
